theory Spec2Isabelle
  imports Complex_Main "HOL-Library.Sublist" "HOL-Library.Product_Lexorder"
begin

section \<open>Press release processing: the extraction and rendering core\<close>

text \<open>
  A shallow embedding of \<^verbatim>\<open>src/lib/press_release.py\<close>. Every function below
  keeps the name of the Python function it embeds.
\<close>

subsection \<open>Strings\<close>

text \<open>
  A Python \<^verbatim>\<open>str\<close> is a sequence of Unicode code points, and \<^verbatim>\<open>len\<close>,
  \<^verbatim>\<open>find\<close> and slicing count code points. A string is therefore a list of code
  points, each a natural number. \<open>ascii\<close> writes an ASCII literal of the source.
\<close>

type_synonym ustring = "nat list"

definition ascii :: "string \<Rightarrow> ustring" where
  "ascii s = map of_char s"

text \<open>\<^verbatim>\<open>s.split(sep)\<close> for a separator of one code point.\<close>

fun split_on :: "nat \<Rightarrow> ustring \<Rightarrow> ustring list" where
  "split_on sep [] = [[]]"
| "split_on sep (c # cs) =
     (if c = sep then [] # split_on sep cs
      else (case split_on sep cs of
              [] \<Rightarrow> [[c]]
            | p # ps \<Rightarrow> (c # p) # ps))"

text \<open>The code point of \<^verbatim>\<open>'?'\<close>.\<close>

definition qmark :: nat where
  "qmark = 63"

subsection \<open>Document parsing: \<^verbatim>\<open>clean_url\<close>\<close>

text \<open>
  \<^verbatim>\<open>
  def clean_url(url):
      if not url: return url
      if '?' in url: return url.split('?')[0]
      return url
  \<close>
\<close>

definition clean_url :: "ustring \<Rightarrow> ustring" where
  "clean_url url =
     (if url = [] then url
      else if qmark \<in> set url then hd (split_on qmark url)
      else url)"

subsection \<open>The Unicode tables of the Python runtime\<close>

text \<open>
  \<^verbatim>\<open>str.strip\<close>, \<^verbatim>\<open>str.lower\<close> and the classes \<^verbatim>\<open>\s\<close> and \<^verbatim>\<open>\d\<close> of
  \<^verbatim>\<open>re\<close> consult the Unicode database of the interpreter, which is no part of the
  repository and differs between Python versions. The functions below take it as a
  parameter: which code points are whitespace, which are decimal digits, and the
  lower-casing of a string.
\<close>

record unicode_db =
  isspace :: "nat \<Rightarrow> bool"
  isdecimal :: "nat \<Rightarrow> bool"
  lower :: "ustring \<Rightarrow> ustring"

text \<open>
  The database restricted to ASCII: on a string of ASCII code points it answers as every
  Python 3 does. The concrete documents evaluated below are ASCII.
\<close>

definition ascii_db :: unicode_db where
  "ascii_db =
     \<lparr> isspace = (\<lambda>c. (9 \<le> c \<and> c \<le> 13) \<or> (28 \<le> c \<and> c \<le> 32)),
       isdecimal = (\<lambda>c. 48 \<le> c \<and> c \<le> 57),
       lower = map (\<lambda>c. if 65 \<le> c \<and> c \<le> 90 then c + 32 else c) \<rparr>"

text \<open>\<^verbatim>\<open>s.strip()\<close>\<close>

definition strip :: "unicode_db \<Rightarrow> ustring \<Rightarrow> ustring" where
  "strip U s = rev (dropWhile (isspace U) (rev (dropWhile (isspace U) s)))"

text \<open>\<^verbatim>\<open>s.startswith(p)\<close> is \<open>prefix p s\<close>; \<^verbatim>\<open>sub in s\<close> is \<open>contains sub s\<close>.\<close>

fun contains :: "ustring \<Rightarrow> ustring \<Rightarrow> bool" where
  "contains sub [] = (sub = [])"
| "contains sub (c # cs) = (prefix sub (c # cs) \<or> contains sub cs)"

text \<open>\<^verbatim>\<open>s.find(sub)\<close>: the lowest index where \<open>sub\<close> occurs; \<open>None\<close> stands for -1.\<close>

fun find_from :: "ustring \<Rightarrow> ustring \<Rightarrow> nat \<Rightarrow> nat option" where
  "find_from sub [] i = (if sub = [] then Some i else None)"
| "find_from sub (c # cs) i =
     (if prefix sub (c # cs) then Some i else find_from sub cs (Suc i))"

definition find_str :: "ustring \<Rightarrow> ustring \<Rightarrow> nat option" where
  "find_str s sub = find_from sub s 0"

subsection \<open>Dictionaries\<close>

text \<open>
  A Python \<^verbatim>\<open>dict\<close> keeps its keys in the order of their first insertion;
  assigning to a key that is present replaces the value in place.
\<close>

type_synonym ('k, 'v) dict = "('k \<times> 'v) list"

fun dict_set :: "'k \<Rightarrow> 'v \<Rightarrow> ('k, 'v) dict \<Rightarrow> ('k, 'v) dict" where
  "dict_set k v [] = [(k, v)]"
| "dict_set k v ((k', v') # d) =
     (if k' = k then (k, v) # d else (k', v') # dict_set k v d)"

subsection \<open>Paragraphs of the Word document\<close>

text \<open>
  What the code reads of a \<^verbatim>\<open>python-docx\<close> paragraph: its text, the name of its
  style (\<open>None\<close> when \<^verbatim>\<open>para.style\<close> is absent), its runs with their italic flag
  (\<open>None\<close> when inherited), and its \<^verbatim>\<open>w:hyperlink\<close> elements in document order.
  A hyperlink carries the target of its relationship (\<open>None\<close> when it has no
  \<^verbatim>\<open>r:id\<close>, when the relationship is missing, or when looking it up raises) and the
  texts of its \<^verbatim>\<open>w:t\<close> nodes.
\<close>

record hyperlink =
  hl_target :: "ustring option"
  hl_texts :: "ustring list"

record run =
  run_text :: ustring
  run_italic :: "bool option"

record docx_paragraph =
  para_text :: ustring
  para_style :: "ustring option"
  para_runs :: "run list"
  para_hyperlinks :: "hyperlink list"

subsection \<open>\<^verbatim>\<open>extract_hyperlinks\<close>\<close>

text \<open>
  \<^verbatim>\<open>
  for hyperlink in p_xml.findall('.//w:hyperlink', ...):
      r_id = hyperlink.get(qn('r:id'))
      if r_id:
          try:
              rel = paragraph.part.rels.get(r_id)
              if rel and rel.target_ref:
                  link_text = ''.join(node.text for node in ... if node.text)
                  if link_text:
                      hyperlinks[link_text] = rel.target_ref
          except Exception: pass
  \<close>
\<close>

definition add_hyperlink ::
  "(ustring, ustring) dict \<Rightarrow> hyperlink \<Rightarrow> (ustring, ustring) dict" where
  "add_hyperlink hyperlinks h =
     (case hl_target h of
        None \<Rightarrow> hyperlinks
      | Some target_ref \<Rightarrow>
          if target_ref = [] then hyperlinks
          else (let link_text = concat (filter (\<lambda>t. t \<noteq> []) (hl_texts h))
                in if link_text = [] then hyperlinks
                   else dict_set link_text target_ref hyperlinks))"

definition extract_hyperlinks :: "docx_paragraph \<Rightarrow> (ustring, ustring) dict" where
  "extract_hyperlinks para = foldl add_hyperlink [] (para_hyperlinks para)"

subsection \<open>\<^verbatim>\<open>get_paragraph_html\<close>\<close>

text \<open>A candidate is the tuple \<^verbatim>\<open>(pos, len(link_text), link_text, url)\<close>.\<close>

type_synonym candidate = "nat \<times> nat \<times> ustring \<times> ustring"

text \<open>
  \<^verbatim>\<open>
  for link_text, url in hyperlinks.items():
      pos = text.find(link_text)
      if pos >= 0:
          link_positions.append((pos, len(link_text), link_text, url))
  \<close>
\<close>

fun link_positions :: "ustring \<Rightarrow> (ustring, ustring) dict \<Rightarrow> candidate list" where
  "link_positions txt [] = []"
| "link_positions txt ((link_text, url) # hyperlinks) =
     (case find_str txt link_text of
        None \<Rightarrow> link_positions txt hyperlinks
      | Some pos \<Rightarrow> (pos, length link_text, link_text, url) # link_positions txt hyperlinks)"

text \<open>
  \<^verbatim>\<open>link_positions.sort(key=lambda x: (-x[0], -x[1]))\<close>: a stable sort, as
  \<open>sort_key\<close> is.
\<close>

definition sort_candidates :: "candidate list \<Rightarrow> candidate list" where
  "sort_candidates cs = sort_key (\<lambda>(pos, len, link_text, url). (- int pos, - int len)) cs"

text \<open>
  \<^verbatim>\<open>
  overlaps = False
  for start, end in linked_ranges:
      if not (pos + length <= start or pos >= end):
          overlaps = True; break
  \<close>
\<close>

fun overlaps :: "nat \<Rightarrow> nat \<Rightarrow> (nat \<times> nat) list \<Rightarrow> bool" where
  "overlaps pos len [] = False"
| "overlaps pos len ((start, stop) # linked_ranges) =
     (if pos + len \<le> start \<or> pos \<ge> stop then overlaps pos len linked_ranges else True)"

text \<open>\<^verbatim>\<open>f'<a href="{clean}" target="_blank">{link_text}</a>'\<close>\<close>

definition link_html :: "ustring \<Rightarrow> ustring \<Rightarrow> ustring" where
  "link_html clean link_text =
     ascii ''<a href=\"'' @ clean @ ascii ''\" target=\"_blank\">'' @ link_text @ ascii ''</a>''"

text \<open>
  One round of the splicing loop; the state is \<^verbatim>\<open>(linked_ranges, result_text)\<close>.
  \<^verbatim>\<open>
  if not overlaps:
      clean = clean_url(url)
      link_html = ...
      result_text = result_text[:pos] + link_html + result_text[pos + length:]
      linked_ranges.append((pos, pos + length))
  \<close>
\<close>

definition splice :: "(nat \<times> nat) list \<times> ustring \<Rightarrow> candidate \<Rightarrow> (nat \<times> nat) list \<times> ustring" where
  "splice st c =
     (case (st, c) of
        ((linked_ranges, result_text), (pos, len, link_text, url)) \<Rightarrow>
          if overlaps pos len linked_ranges then (linked_ranges, result_text)
          else (linked_ranges @ [(pos, pos + len)],
                take pos result_text @ link_html (clean_url url) link_text
                  @ drop (pos + len) result_text))"

definition splice_all :: "ustring \<Rightarrow> candidate list \<Rightarrow> (nat \<times> nat) list \<times> ustring" where
  "splice_all txt cs = foldl splice ([], txt) cs"

definition get_paragraph_html :: "docx_paragraph \<Rightarrow> bool \<Rightarrow> ustring" where
  "get_paragraph_html para include_links =
     (let hyperlinks = (if include_links then extract_hyperlinks para else []);
          txt = para_text para
      in if hyperlinks \<noteq> [] \<and> include_links
         then snd (splice_all txt (sort_candidates (link_positions txt hyperlinks)))
         else txt)"

subsection \<open>What the renderer computes\<close>

text \<open>
  The rest of this part serves the proofs about \<^verbatim>\<open>get_paragraph_html\<close>; the
  source has no function of these names.

  \<open>chosen rs cs\<close> are the candidates of \<open>cs\<close> that the splicing loop applies when
  \<open>rs\<close> are the ranges linked so far, in the order of the loop; \<open>selected\<close> are
  those of a paragraph.
\<close>

fun chosen :: "(nat \<times> nat) list \<Rightarrow> candidate list \<Rightarrow> candidate list" where
  "chosen rs [] = []"
| "chosen rs ((pos, len, link_text, url) # cs) =
     (if overlaps pos len rs then chosen rs cs
      else (pos, len, link_text, url) # chosen (rs @ [(pos, pos + len)]) cs)"

definition selected :: "docx_paragraph \<Rightarrow> candidate list" where
  "selected para =
     chosen [] (sort_candidates (link_positions (para_text para) (extract_hyperlinks para)))"

text \<open>
  The specification of the output, in the words of the spec: the plain text with
  selected substrings replaced by anchors. \<open>rendered txt b cs\<close> is the text up to
  offset \<open>b\<close>, where \<open>cs\<close> lists the substrings to replace from the highest offset
  down: below the highest one the text is rendered in the same way, its range
  \<open>[pos, pos + len)\<close> becomes the anchor whose \<^verbatim>\<open>href\<close> is the URL cut at the
  first \<^verbatim>\<open>'?'\<close>, and what lies between the range and \<open>b\<close> is copied.
\<close>

fun rendered :: "ustring \<Rightarrow> nat \<Rightarrow> candidate list \<Rightarrow> ustring" where
  "rendered txt b [] = take b txt"
| "rendered txt b ((pos, len, link_text, url) # cs) =
     rendered txt pos cs
     @ link_html (takeWhile (\<lambda>c. c \<noteq> qmark) url) link_text
     @ take (b - (pos + len)) (drop (pos + len) txt)"

text \<open>
  \<open>separated b cs\<close>: every range of \<open>cs\<close> ends at or before the start of the range
  listed before it, and the first one ends at or before \<open>b\<close>.
\<close>

fun separated :: "nat \<Rightarrow> candidate list \<Rightarrow> bool" where
  "separated b [] = True"
| "separated b ((pos, len, link_text, url) # cs) = (pos + len \<le> b \<and> separated pos cs)"

text \<open>The assignment to \<^verbatim>\<open>result_text\<close> for one candidate, and its range.\<close>

definition put :: "ustring \<Rightarrow> candidate \<Rightarrow> ustring" where
  "put r c =
     (case c of (pos, len, link_text, url) \<Rightarrow>
        take pos r @ link_html (clean_url url) link_text @ drop (pos + len) r)"

definition range_of :: "candidate \<Rightarrow> nat \<times> nat" where
  "range_of c = (case c of (pos, len, link_text, url) \<Rightarrow> (pos, pos + len))"

text \<open>The start of the lowest range of \<open>cs\<close>, or \<open>b\<close> when there is none.\<close>

fun lowest :: "nat \<Rightarrow> candidate list \<Rightarrow> nat" where
  "lowest b [] = b"
| "lowest b ((pos, len, link_text, url) # cs) = lowest pos cs"

subsection \<open>The two patterns of \<^verbatim>\<open>parse_docx\<close>\<close>

text \<open>
  Both patterns are matched by \<^verbatim>\<open>re.match\<close>, a backtracking matcher anchored at
  the start. Each piece below takes the continuation \<open>k\<close> that matches what follows
  it and returns the number of code points matched, trying its own choices in the order
  the matcher does: alternatives from left to right, \<^verbatim>\<open>\s+\<close> the longest run first,
  \<^verbatim>\<open>\d{1,2}\<close> two digits before one.
\<close>

definition month_names :: "ustring list" where
  "month_names = map ascii
     [''January'', ''February'', ''March'', ''April'', ''May'', ''June'', ''July'',
      ''August'', ''September'', ''October'', ''November'', ''December'']"

fun alt_then :: "ustring list \<Rightarrow> (ustring \<Rightarrow> nat option) \<Rightarrow> ustring \<Rightarrow> nat option" where
  "alt_then [] k s = None"
| "alt_then (a # as) k s =
     (if prefix a s
      then (case k (drop (length a) s) of
              Some n \<Rightarrow> Some (length a + n)
            | None \<Rightarrow> alt_then as k s)
      else alt_then as k s)"

fun spaces_then :: "unicode_db \<Rightarrow> (ustring \<Rightarrow> nat option) \<Rightarrow> ustring \<Rightarrow> nat option" where
  "spaces_then U k [] = None"
| "spaces_then U k (c # cs) =
     (if isspace U c
      then (case spaces_then U k cs of
              Some n \<Rightarrow> Some (Suc n)
            | None \<Rightarrow> map_option Suc (k cs))
      else None)"

definition digit_then :: "unicode_db \<Rightarrow> (ustring \<Rightarrow> nat option) \<Rightarrow> ustring \<Rightarrow> nat option" where
  "digit_then U k s =
     (case s of
        [] \<Rightarrow> None
      | c # cs \<Rightarrow> if isdecimal U c then map_option Suc (k cs) else None)"

definition digit12_then :: "unicode_db \<Rightarrow> (ustring \<Rightarrow> nat option) \<Rightarrow> ustring \<Rightarrow> nat option" where
  "digit12_then U k s =
     (case digit_then U (digit_then U k) s of
        Some n \<Rightarrow> Some n
      | None \<Rightarrow> digit_then U k s)"

definition comma_then :: "(ustring \<Rightarrow> nat option) \<Rightarrow> ustring \<Rightarrow> nat option" where
  "comma_then k s =
     (case s of
        [] \<Rightarrow> None
      | c # cs \<Rightarrow> if c = 44 then map_option Suc (k cs) else None)"

definition matched :: "ustring \<Rightarrow> nat option" where
  "matched s = Some 0"

text \<open>
  \<^verbatim>\<open>re.match(r'^(January|...|December)\s+\d', text)\<close>, as a truth value.
\<close>

definition month_digit_match :: "unicode_db \<Rightarrow> ustring \<Rightarrow> bool" where
  "month_digit_match U s =
     (alt_then month_names (spaces_then U (digit_then U matched)) s \<noteq> None)"

text \<open>
  \<^verbatim>\<open>re.match(r'^((?:January|...|December)\s+\d{1,2},\s+\d{4})', para_html)\<close>:
  \<open>None\<close> when there is no match, else \<^verbatim>\<open>group(1)\<close>.
\<close>

definition date_match :: "unicode_db \<Rightarrow> ustring \<Rightarrow> ustring option" where
  "date_match U s =
     map_option (\<lambda>n. take n s)
       (alt_then month_names
          (spaces_then U (digit12_then U (comma_then (spaces_then U
             (digit_then U (digit_then U (digit_then U (digit_then U matched)))))))) s)"

subsection \<open>\<^verbatim>\<open>parse_docx\<close>\<close>

text \<open>
  The content model, with the fields that the loop over the paragraphs fills. The pass
  after the loop derives \<^verbatim>\<open>meta_description\<close> and \<^verbatim>\<open>meta_keywords\<close> from
  the first body paragraph and the headline and changes no other field; it is outside
  this development.
\<close>

record content =
  headline :: ustring
  subheadline :: ustring
  date :: ustring
  body_paragraphs :: "ustring list"
  about_sections :: "(ustring, ustring list) dict"
  product_link :: ustring

datatype section_state = Body | About | Trademarks

text \<open>The variables of the loop.\<close>

record parse_state =
  result :: content
  current_section :: section_state
  current_about_title :: "ustring option"

definition init_state :: parse_state where
  "init_state =
     \<lparr> result = \<lparr> headline = [], subheadline = [], date = [], body_paragraphs = [],
                  about_sections = [], product_link = [] \<rparr>,
       current_section = Body,
       current_about_title = None \<rparr>"

text \<open>\<^verbatim>\<open>para.style.name if para.style else 'Normal'\<close>\<close>

definition style_name :: "docx_paragraph \<Rightarrow> ustring" where
  "style_name para = (case para_style para of None \<Rightarrow> ascii ''Normal'' | Some n \<Rightarrow> n)"

text \<open>The closing markers \<^verbatim>\<open>'\<endash> 30 \<endash>'\<close> (with U+2013) and \<^verbatim>\<open>'- 30 -'\<close>.\<close>

definition closing_markers :: "ustring list" where
  "closing_markers = [[8211, 32, 51, 48, 32, 8211], ascii ''- 30 -'']"

text \<open>\<^verbatim>\<open>any(run.italic for run in para.runs if run.text.strip())\<close>\<close>

definition has_italic :: "unicode_db \<Rightarrow> docx_paragraph \<Rightarrow> bool" where
  "has_italic U para =
     list_ex (\<lambda>r. run_italic r = Some True)
       (filter (\<lambda>r. strip U (run_text r) \<noteq> []) (para_runs para))"

text \<open>
  \<^verbatim>\<open>result['about_sections'][current_about_title].append(para_html)\<close>. Python
  raises \<^verbatim>\<open>KeyError\<close> when the title is no key; \<open>dict_append\<close> leaves the
  dictionary as it is there, and \<open>about_title_present\<close> below shows that the loop of
  \<^verbatim>\<open>parse_docx\<close> never meets that case.
\<close>

fun dict_append :: "'k \<Rightarrow> 'v \<Rightarrow> ('k, 'v list) dict \<Rightarrow> ('k, 'v list) dict" where
  "dict_append k v [] = []"
| "dict_append k v ((k', vs) # d) =
     (if k' = k then (k', vs @ [v]) # d else (k', vs) # dict_append k v d)"

text \<open>
  The branch of the \<^verbatim>\<open>body\<close> section:
  \<^verbatim>\<open>
  para_html = get_paragraph_html(para)
  date_match = re.match(..., para_html)
  if date_match and not result['date']:
      result['date'] = date_match.group(1)
  if not result['product_link']:
      links = extract_hyperlinks(para)
      for url in links.values():
          if 'mouser.com' in url and '/new/' in url:
              result['product_link'] = clean_url(url); break
  result['body_paragraphs'].append(para_html)
  \<close>
\<close>

definition add_body :: "unicode_db \<Rightarrow> content \<Rightarrow> docx_paragraph \<Rightarrow> content" where
  "add_body U res para =
     (let para_html = get_paragraph_html para True;
          res1 = (case date_match U para_html of
                    None \<Rightarrow> res
                  | Some d \<Rightarrow> if date res = [] then res\<lparr>date := d\<rparr> else res);
          res2 = (if product_link res1 = []
                  then (case find (\<lambda>url. contains (ascii ''mouser.com'') url
                                        \<and> contains (ascii ''/new/'') url)
                               (map snd (extract_hyperlinks para)) of
                          None \<Rightarrow> res1
                        | Some url \<Rightarrow> res1\<lparr>product_link := clean_url url\<rparr>)
                  else res1)
      in res2\<lparr>body_paragraphs := body_paragraphs res2 @ [para_html]\<rparr>)"

text \<open>
  One round of \<^verbatim>\<open>for para in doc.paragraphs\<close>. Each \<^verbatim>\<open>continue\<close> of the source
  ends a branch here; where the source falls through a failed inner test, the tests are
  joined by a conjunction.
\<close>

definition parse_step :: "unicode_db \<Rightarrow> parse_state \<Rightarrow> docx_paragraph \<Rightarrow> parse_state" where
  "parse_step U s para =
     (let txt = strip U (para_text para);
          style = style_name para;
          res = result s
      in
      if txt = [] then s
      else if txt \<in> set closing_markers then s
      else if style = ascii ''Title'' \<or> (style = ascii ''Title2'' \<and> headline res = []) then
        (if contains (ascii ''New Product Announcement'') txt then s
         else s\<lparr>result := res\<lparr>headline := txt\<rparr>\<rparr>)
      else if headline res = [] \<and> style \<in> set [ascii ''Title'', ascii ''Heading 1'']
              \<and> length txt > 20 then
        s\<lparr>result := res\<lparr>headline := txt\<rparr>\<rparr>
      else if (headline res \<noteq> [] \<and> subheadline res = [] \<and> body_paragraphs res = [])
              \<and> style = ascii ''Subtitle'' then
        s\<lparr>result := res\<lparr>subheadline := txt\<rparr>\<rparr>
      else if (headline res \<noteq> [] \<and> subheadline res = [] \<and> body_paragraphs res = [])
              \<and> (has_italic U para \<and> length txt < 200 \<and> txt \<noteq> headline res)
              \<and> \<not> month_digit_match U txt then
        s\<lparr>result := res\<lparr>subheadline := txt\<rparr>\<rparr>
      else if (style = ascii ''Heading 1'' \<or> prefix (ascii ''About '') txt)
              \<and> prefix (ascii ''About '') txt then
        s\<lparr>current_section := About,
          current_about_title := Some txt,
          result := res\<lparr>about_sections := dict_set txt [] (about_sections res)\<rparr>\<rparr>
      else if contains (ascii ''Trademarks'') txt
              \<and> (style = ascii ''Heading 1'' \<or> prefix (ascii ''Trademarks'') txt) then
        s\<lparr>current_section := Trademarks\<rparr>
      else if current_section s = Trademarks then s
      else if current_section s = About
              \<and> current_about_title s \<noteq> None \<and> current_about_title s \<noteq> Some [] then
        s\<lparr>result := res\<lparr>about_sections :=
             dict_append (the (current_about_title s)) (get_paragraph_html para True)
               (about_sections res)\<rparr>\<rparr>
      else if current_section s = Body then
        s\<lparr>result := add_body U res para\<rparr>
      else s)"

text \<open>The loop from a given state, and from the initial one.\<close>

definition parse_from :: "unicode_db \<Rightarrow> parse_state \<Rightarrow> docx_paragraph list \<Rightarrow> parse_state" where
  "parse_from U s paras = foldl (parse_step U) s paras"

definition parse_loop :: "unicode_db \<Rightarrow> docx_paragraph list \<Rightarrow> parse_state" where
  "parse_loop U paras = parse_from U init_state paras"

definition parse_docx :: "unicode_db \<Rightarrow> docx_paragraph list \<Rightarrow> content" where
  "parse_docx U paras = result (parse_loop U paras)"

text \<open>
  The title of the current about section, when there is one, is a key of
  \<open>about_sections\<close>.
\<close>

definition title_present :: "parse_state \<Rightarrow> bool" where
  "title_present s =
     (current_about_title s = None
      \<or> current_about_title s \<in> Some ` set (map fst (about_sections (result s))))"

subsection \<open>\<^verbatim>\<open>convert_png_to_jpg\<close>\<close>

text \<open>
  What the code reads of the opened image is its size. The colour conversion, the
  resize, the sharpening filter and the encoder belong to the imaging library and work
  on pixels; the model keeps of them whether they raise.
\<close>

record image =
  width :: nat
  height :: nat

record conversion =
  converted :: bool
  output_path :: ustring
  dimensions :: "(nat \<times> int) option"
  error :: "ustring option"

text \<open>\<^verbatim>\<open>int(x)\<close> of a float: truncation toward zero.\<close>

definition py_int :: "rat \<Rightarrow> int" where
  "py_int x = (if x < 0 then - \<lfloor>- x\<rfloor> else \<lfloor>x\<rfloor>)"

text \<open>\<^verbatim>\<open>round(x)\<close> of a float: to the nearest integer, a tie to the even one.\<close>

definition py_round :: "rat \<Rightarrow> int" where
  "py_round x =
     (let f = \<lfloor>x\<rfloor>; r = x - of_int f
      in if r < 1 / 2 then f
         else if 1 / 2 < r then f + 1
         else if even f then f else f + 1)"

text \<open>
  \<^verbatim>\<open>
  try:
      with Image.open(png_path) as img:
          ratio = target_width / img.width
          new_height = int(img.height * ratio)
          ... convert, resize((target_width, new_height)), filter, save ...
          result['success'] = True
          result['dimensions'] = (target_width, new_height)
  except Exception as e:
      result['error'] = str(e)
  \<close>
  The two arithmetic operations are on floats. Each yields the exact quotient or
  product rounded to a float; the rounding \<open>fl\<close> is a parameter, since the float format
  is the interpreter's. \<open>opened\<close> is the image that \<^verbatim>\<open>Image.open\<close> delivers, or the
  message of the exception it raises; \<open>pil\<close> answers for the library calls between the
  arithmetic and the assignment of \<^verbatim>\<open>success\<close>: \<open>None\<close> when they complete, else the
  message of the exception.
\<close>

definition convert_png_to_jpg ::
  "(rat \<Rightarrow> rat) \<Rightarrow> ustring + image \<Rightarrow> (image \<Rightarrow> nat \<times> int \<Rightarrow> ustring option) \<Rightarrow>
   ustring \<Rightarrow> nat \<Rightarrow> conversion" where
  "convert_png_to_jpg fl opened pil out_path target_width =
     (let result0 = \<lparr> converted = False, output_path = out_path, dimensions = None,
                       error = None \<rparr>
      in case opened of
           Inl msg \<Rightarrow> result0\<lparr>error := Some msg\<rparr>
         | Inr img \<Rightarrow>
             if width img = 0 then result0\<lparr>error := Some (ascii ''division by zero'')\<rparr>
             else
               (let ratio = fl (of_nat target_width / of_nat (width img));
                    new_height = py_int (fl (of_nat (height img) * ratio))
                in case pil img (target_width, new_height) of
                     Some msg \<Rightarrow> result0\<lparr>error := Some msg\<rparr>
                   | None \<Rightarrow> result0\<lparr>converted := True,
                                     dimensions := Some (target_width, new_height)\<rparr>))"

text \<open>
  Exact arithmetic: the rounding of every float format on the numbers that the format
  represents, among them \<open>1/2\<close> and every multiple of \<open>1/2\<close> below \<open>2\<^sup>5\<^sup>2\<close>.
\<close>

definition exact :: "rat \<Rightarrow> rat" where
  "exact x = x"

subsection \<open>\<^verbatim>\<open>generate_month_folder\<close>\<close>

record datetime =
  year :: nat
  month :: nat
  day :: nat

text \<open>\<^verbatim>\<open>str(n)\<close> for a natural number, and \<^verbatim>\<open>f"{n:02d}"\<close>.\<close>

fun decimal :: "nat \<Rightarrow> ustring" where
  "decimal n = (if n < 10 then [48 + n] else decimal (n div 10) @ [48 + n mod 10])"

declare decimal.simps [simp del]

definition two_digits :: "nat \<Rightarrow> ustring" where
  "two_digits n = replicate (2 - length (decimal n)) 48 @ decimal n"

text \<open>\<^verbatim>\<open>f"{year}-{month:02d} - Mouser"\<close>\<close>

definition month_folder_name :: "nat \<Rightarrow> nat \<Rightarrow> ustring" where
  "month_folder_name y m = decimal y @ ascii ''-'' @ two_digits m @ ascii '' - Mouser''"

text \<open>
  \<^verbatim>\<open>
  if date_str:
      try:
          date_obj = datetime.strptime(date_str, "%B %d, %Y")
          return f"{date_obj.year}-{date_obj.month:02d} - Mouser"
      except ValueError: pass
  now = datetime.now()
  return f"{now.year}-{now.month:02d} - Mouser"
  \<close>
  \<^verbatim>\<open>datetime.strptime\<close> and the clock belong to the Python library: \<open>strptime\<close> is
  the parser for the format \<^verbatim>\<open>"%B %d, %Y"\<close>, \<open>None\<close> when it raises
  \<^verbatim>\<open>ValueError\<close>, and \<open>now\<close> is \<^verbatim>\<open>datetime.now()\<close>.
\<close>

definition generate_month_folder ::
  "(ustring \<Rightarrow> datetime option) \<Rightarrow> datetime \<Rightarrow> ustring option \<Rightarrow> ustring" where
  "generate_month_folder strptime now date_str =
     (case date_str of
        None \<Rightarrow> month_folder_name (year now) (month now)
      | Some d \<Rightarrow>
          if d = [] then month_folder_name (year now) (month now)
          else (case strptime d of
                  Some date_obj \<Rightarrow> month_folder_name (year date_obj) (month date_obj)
                | None \<Rightarrow> month_folder_name (year now) (month now)))"

subsection \<open>The library parser on ASCII strings\<close>

text \<open>
  \<^verbatim>\<open>datetime.strptime(s, "%B %d, %Y")\<close> with the English month names of the C locale,
  as it answers on a string of ASCII code points. The library matches \<open>s\<close> from its
  start, ignoring case, against
  \<^verbatim>\<open>(?P<B>january|...|december)\s+(?P<d>3[0-1]|[1-2]\d|0[1-9]|[1-9]| [1-9]),\s+(?P<Y>\d\d\d\d)\<close>,
  raises \<^verbatim>\<open>ValueError\<close> when there is no match or when the match leaves a rest, and
  raises it as well when the numbers are no date. The pieces take a continuation as in
  the patterns of \<^verbatim>\<open>parse_docx\<close>. No month name is a prefix of another, so the
  order of the names is immaterial.
\<close>

definition ascii_space :: "nat \<Rightarrow> bool" where
  "ascii_space c = ((9 \<le> c \<and> c \<le> 13) \<or> (28 \<le> c \<and> c \<le> 32))"

definition ascii_digit :: "nat \<Rightarrow> bool" where
  "ascii_digit c = (48 \<le> c \<and> c \<le> 57)"

definition ascii_lower :: "ustring \<Rightarrow> ustring" where
  "ascii_lower s = map (\<lambda>c. if 65 \<le> c \<and> c \<le> 90 then c + 32 else c) s"

definition orelse :: "'a option \<Rightarrow> 'a option \<Rightarrow> 'a option" where
  "orelse a b = (case a of Some x \<Rightarrow> Some x | None \<Rightarrow> b)"

fun month_name_then ::
  "nat \<Rightarrow> ustring list \<Rightarrow> (nat \<Rightarrow> ustring \<Rightarrow> 'a option) \<Rightarrow> ustring \<Rightarrow> 'a option" where
  "month_name_then i [] k s = None"
| "month_name_then i (name # names) k s =
     orelse
       (if ascii_lower (take (length name) s) = ascii_lower name
        then k i (drop (length name) s) else None)
       (month_name_then (Suc i) names k s)"

fun space_run_then :: "(ustring \<Rightarrow> 'a option) \<Rightarrow> ustring \<Rightarrow> 'a option" where
  "space_run_then k [] = None"
| "space_run_then k (c # cs) =
     (if ascii_space c then orelse (space_run_then k cs) (k cs) else None)"

definition day_then :: "(nat \<Rightarrow> ustring \<Rightarrow> 'a option) \<Rightarrow> ustring \<Rightarrow> 'a option" where
  "day_then k s =
     orelse (case s of a # b # r \<Rightarrow>
               if a = 51 \<and> (b = 48 \<or> b = 49) then k (30 + (b - 48)) r else None
             | _ \<Rightarrow> None)
    (orelse (case s of a # b # r \<Rightarrow>
               if (a = 49 \<or> a = 50) \<and> ascii_digit b then k (10 * (a - 48) + (b - 48)) r
               else None
             | _ \<Rightarrow> None)
    (orelse (case s of a # b # r \<Rightarrow>
               if a = 48 \<and> 49 \<le> b \<and> b \<le> 57 then k (b - 48) r else None
             | _ \<Rightarrow> None)
    (orelse (case s of a # r \<Rightarrow>
               if 49 \<le> a \<and> a \<le> 57 then k (a - 48) r else None
             | _ \<Rightarrow> None)
            (case s of a # b # r \<Rightarrow>
               if a = 32 \<and> 49 \<le> b \<and> b \<le> 57 then k (b - 48) r else None
             | _ \<Rightarrow> None))))"

definition comma_char_then :: "(ustring \<Rightarrow> 'a option) \<Rightarrow> ustring \<Rightarrow> 'a option" where
  "comma_char_then k s = (case s of c # r \<Rightarrow> if c = 44 then k r else None | _ \<Rightarrow> None)"

definition year_then :: "(nat \<Rightarrow> ustring \<Rightarrow> 'a option) \<Rightarrow> ustring \<Rightarrow> 'a option" where
  "year_then k s =
     (case s of
        a # b # c # d # r \<Rightarrow>
          if ascii_digit a \<and> ascii_digit b \<and> ascii_digit c \<and> ascii_digit d
          then k (1000 * (a - 48) + 100 * (b - 48) + 10 * (c - 48) + (d - 48)) r
          else None
      | _ \<Rightarrow> None)"

definition days_in_month :: "nat \<Rightarrow> nat \<Rightarrow> nat" where
  "days_in_month y m =
     (if m = 2 then (if (y mod 400 = 0 \<or> y mod 100 \<noteq> 0) \<and> y mod 4 = 0 then 29 else 28)
      else if m = 4 \<or> m = 6 \<or> m = 9 \<or> m = 11 then 30
      else 31)"

definition strptime_ascii :: "ustring \<Rightarrow> datetime option" where
  "strptime_ascii s =
     (case month_name_then 1 month_names
             (\<lambda>m. space_run_then (day_then (\<lambda>d. comma_char_then (space_run_then
                (year_then (\<lambda>y rest. Some (y, m, d, rest))))))) s of
        None \<Rightarrow> None
      | Some (y, m, d, rest) \<Rightarrow>
          if rest = [] \<and> 1 \<le> y \<and> d \<le> days_in_month y m
          then Some \<lparr> year = y, month = m, day = d \<rparr>
          else None)"

subsection \<open>\<^verbatim>\<open>find_files\<close>\<close>

text \<open>
  The folder as the code sees it: the names that \<^verbatim>\<open>os.listdir\<close> returns, in its
  order, each with the answer of \<^verbatim>\<open>os.path.isfile\<close> for its path.
\<close>

record dir_entry =
  entry_name :: ustring
  entry_is_file :: bool

text \<open>The code point of \<^verbatim>\<open>'/'\<close>.\<close>

definition slash :: nat where
  "slash = 47"

text \<open>\<^verbatim>\<open>os.path.join(a, b)\<close> and \<^verbatim>\<open>os.path.basename(p)\<close> of \<^verbatim>\<open>posixpath\<close>.\<close>

definition path_join :: "ustring \<Rightarrow> ustring \<Rightarrow> ustring" where
  "path_join a b =
     (if prefix [slash] b then b
      else if a = [] \<or> suffix [slash] a then a @ b
      else a @ [slash] @ b)"

definition basename :: "ustring \<Rightarrow> ustring" where
  "basename p = rev (takeWhile (\<lambda>c. c \<noteq> slash) (rev p))"

record found_files =
  docx :: "ustring option"
  png :: "ustring option"
  pdf :: "ustring option"
  files_folder_name :: ustring

text \<open>
  One round of \<^verbatim>\<open>for filename in os.listdir(folder_path)\<close>:
  \<^verbatim>\<open>
  filepath = os.path.join(folder_path, filename)
  if not os.path.isfile(filepath): continue
  lower = filename.lower()
  if lower.endswith('.docx') and 'instruction' not in lower:
      if files['docx'] is None or 'publicrelations' in lower:
          files['docx'] = filepath
  elif lower.endswith('.png'):
      files['png'] = filepath
  elif lower.endswith('.pdf'):
      if 'instruction' not in lower and 'order' not in lower:
          if files['pdf'] is None or 'publicrelations' in lower:
              files['pdf'] = filepath
  \<close>
\<close>

definition find_step :: "unicode_db \<Rightarrow> ustring \<Rightarrow> found_files \<Rightarrow> dir_entry \<Rightarrow> found_files" where
  "find_step U folder_path files e =
     (let filepath = path_join folder_path (entry_name e);
          lower_name = lower U (entry_name e)
      in
      if \<not> entry_is_file e then files
      else if suffix (ascii ''.docx'') lower_name
              \<and> \<not> contains (ascii ''instruction'') lower_name then
        (if docx files = None \<or> contains (ascii ''publicrelations'') lower_name
         then files\<lparr>docx := Some filepath\<rparr> else files)
      else if suffix (ascii ''.png'') lower_name then
        files\<lparr>png := Some filepath\<rparr>
      else if suffix (ascii ''.pdf'') lower_name then
        (if \<not> contains (ascii ''instruction'') lower_name
            \<and> \<not> contains (ascii ''order'') lower_name
         then (if pdf files = None \<or> contains (ascii ''publicrelations'') lower_name
               then files\<lparr>pdf := Some filepath\<rparr> else files)
         else files)
      else files)"

definition find_files :: "unicode_db \<Rightarrow> ustring \<Rightarrow> dir_entry list \<Rightarrow> found_files" where
  "find_files U folder_path entries =
     foldl (find_step U folder_path)
       \<lparr> docx = None, png = None, pdf = None, files_folder_name = basename folder_path \<rparr>
       entries"

subsection \<open>\<^verbatim>\<open>process_press_release\<close>\<close>

text \<open>
  The result dictionary, and beside it the paths of the files that the call has
  written.
\<close>

record processing_result =
  success :: bool
  folder_name :: "ustring option"
  files_to_upload :: "(ustring \<times> ustring) list"
  preview_urls :: "(ustring, ustring) dict"
  errors :: "ustring list"
  month_folder :: "ustring option"

type_synonym outcome = "processing_result \<times> ustring list"

text \<open>\<^verbatim>\<open>sep.join(xs)\<close>\<close>

fun join :: "ustring \<Rightarrow> ustring list \<Rightarrow> ustring" where
  "join sep [] = []"
| "join sep [x] = x"
| "join sep (x # y # ys) = x @ sep @ join sep (y # ys)"

text \<open>\<^verbatim>\<open>not files[kind]\<close>: the entry is \<^verbatim>\<open>None\<close> or the empty string.\<close>

definition falsy :: "ustring option \<Rightarrow> bool" where
  "falsy v = (v = None \<or> v = Some [])"

text \<open>
  \<^verbatim>\<open>
  missing = []
  if not files['docx']: missing.append("Word document (.docx)")
  if not files['png']: missing.append("PNG image (.png)")
  if not files['pdf']: missing.append("PDF file (.pdf)")
  \<close>
\<close>

definition missing_files :: "found_files \<Rightarrow> ustring list" where
  "missing_files files =
     (if falsy (docx files) then [ascii ''Word document (.docx)''] else [])
     @ (if falsy (png files) then [ascii ''PNG image (.png)''] else [])
     @ (if falsy (pdf files) then [ascii ''PDF file (.pdf)''] else [])"

text \<open>
  The function up to its second \<^verbatim>\<open>return\<close> (line 589). \<open>listing\<close> is \<open>None\<close>
  when \<^verbatim>\<open>os.path.isdir(folder_path)\<close> is false. Parsing, image conversion, the
  rendering and every write to the folder come after that line; \<open>process_found\<close>
  stands for them, with the files found and the result so far.
\<close>

definition process_press_release ::
  "unicode_db \<Rightarrow> (found_files \<Rightarrow> processing_result \<Rightarrow> outcome) \<Rightarrow>
   dir_entry list option \<Rightarrow> ustring \<Rightarrow> outcome" where
  "process_press_release U process_found listing folder_path =
     (let result0 = \<lparr> success = False, folder_name = None, files_to_upload = [],
                       preview_urls = [], errors = [], month_folder = None \<rparr>
      in case listing of
           None \<Rightarrow>
             (result0\<lparr>errors := errors result0 @ [ascii ''Folder not found: '' @ folder_path]\<rparr>, [])
         | Some entries \<Rightarrow>
             (let result1 = result0\<lparr>folder_name := Some (basename folder_path)\<rparr>;
                  files = find_files U folder_path entries;
                  missing = missing_files files
              in if missing \<noteq> []
                 then (result1\<lparr>errors := errors result1
                          @ [ascii ''Missing files: '' @ join (ascii '', '') missing]\<rparr>, [])
                 else process_found files result1))"

text \<open>
  The required kinds in a listing: a Word document is a file whose lower-cased name ends
  with \<^verbatim>\<open>.docx\<close> and has no \<^verbatim>\<open>instruction\<close> in it; an image is a file ending
  with \<^verbatim>\<open>.png\<close>; a PDF is a file ending with \<^verbatim>\<open>.pdf\<close> with neither
  \<^verbatim>\<open>instruction\<close> nor \<^verbatim>\<open>order\<close> in its name.
\<close>

definition is_docx :: "unicode_db \<Rightarrow> dir_entry \<Rightarrow> bool" where
  "is_docx U e =
     (entry_is_file e \<and> suffix (ascii ''.docx'') (lower U (entry_name e))
      \<and> \<not> contains (ascii ''instruction'') (lower U (entry_name e)))"

definition is_png :: "unicode_db \<Rightarrow> dir_entry \<Rightarrow> bool" where
  "is_png U e = (entry_is_file e \<and> suffix (ascii ''.png'') (lower U (entry_name e)))"

definition is_pdf :: "unicode_db \<Rightarrow> dir_entry \<Rightarrow> bool" where
  "is_pdf U e =
     (entry_is_file e \<and> suffix (ascii ''.pdf'') (lower U (entry_name e))
      \<and> \<not> contains (ascii ''instruction'') (lower U (entry_name e))
      \<and> \<not> contains (ascii ''order'') (lower U (entry_name e)))"

definition absent_kinds :: "unicode_db \<Rightarrow> dir_entry list \<Rightarrow> ustring list" where
  "absent_kinds U entries =
     (if list_ex (is_docx U) entries then [] else [ascii ''Word document (.docx)''])
     @ (if list_ex (is_png U) entries then [] else [ascii ''PNG image (.png)''])
     @ (if list_ex (is_pdf U) entries then [] else [ascii ''PDF file (.pdf)''])"

text \<open>\<^verbatim>\<open>os.listdir\<close> returns no empty name.\<close>

definition names_ok :: "dir_entry list \<Rightarrow> bool" where
  "names_ok entries = list_all (\<lambda>e. entry_name e \<noteq> []) entries"

text \<open>The paths stored are not empty, so that \<^verbatim>\<open>not files[kind]\<close> tests for \<^verbatim>\<open>None\<close>.\<close>

definition paths_ok :: "found_files \<Rightarrow> bool" where
  "paths_ok files = (docx files \<noteq> Some [] \<and> png files \<noteq> Some [] \<and> pdf files \<noteq> Some [])"

subsection \<open>Concrete documents\<close>

text \<open>
  A paragraph of the given style whose text is one run without direct italic
  formatting, and without hyperlinks.
\<close>

definition styled :: "string \<Rightarrow> string \<Rightarrow> docx_paragraph" where
  "styled sty t =
     \<lparr> para_text = ascii t, para_style = Some (ascii sty),
       para_runs = [\<lparr> run_text = ascii t, run_italic = None \<rparr>],
       para_hyperlinks = [] \<rparr>"

text \<open>
  The paragraph of the example in the spec: two hyperlinks with the same text
  \<^verbatim>\<open>ABC\<close> and different targets.
\<close>

definition abc_para :: docx_paragraph where
  "abc_para =
     \<lparr> para_text = ascii ''See ABC and ABC again'',
       para_style = Some (ascii ''Normal''),
       para_runs = [\<lparr> run_text = ascii ''See '', run_italic = None \<rparr>,
                    \<lparr> run_text = ascii '' and '', run_italic = None \<rparr>,
                    \<lparr> run_text = ascii '' again'', run_italic = None \<rparr>],
       para_hyperlinks =
         [\<lparr> hl_target = Some (ascii ''https://www.mouser.com/a''), hl_texts = [ascii ''ABC''] \<rparr>,
          \<lparr> hl_target = Some (ascii ''https://www.mouser.com/b?utm_source=x''),
            hl_texts = [ascii ''ABC''] \<rparr>] \<rparr>"

section \<open>Facts about the model\<close>

subsection \<open>Facts about splitting\<close>

lemma split_on_not_Nil: "split_on sep s \<noteq> []"
  by (induction s) (auto split: list.splits)

lemma hd_split_on: "hd (split_on sep s) = takeWhile (\<lambda>c. c \<noteq> sep) s"
proof (induction s)
  case Nil
  show ?case by simp
next
  case (Cons c cs)
  show ?case
  proof (cases "c = sep")
    case True
    then show ?thesis by simp
  next
    case False
    obtain p ps where sp: "split_on sep cs = p # ps"
      using split_on_not_Nil [of sep cs] by (cases "split_on sep cs") auto
    with Cons False show ?thesis by simp
  qed
qed

lemma clean_url_takeWhile: "clean_url url = takeWhile (\<lambda>c. c \<noteq> qmark) url"
proof (cases "qmark \<in> set url")
  case True
  then have "url \<noteq> []" by auto
  with True show ?thesis by (simp add: clean_url_def hd_split_on)
next
  case False
  then have tw: "takeWhile (\<lambda>c. c \<noteq> qmark) url = url"
    by auto
  from False have "clean_url url = url"
    by (simp add: clean_url_def)
  then show ?thesis by (simp only: tw)
qed

subsection \<open>Facts about the splicing loop\<close>

lemma splice_simp:
  "splice (rs, r) (p, l, lt, u) =
     (if overlaps p l rs then (rs, r)
      else (rs @ [(p, p + l)], take p r @ link_html (clean_url u) lt @ drop (p + l) r))"
  by (simp add: splice_def)

lemma put_simp:
  "put r (p, l, lt, u) = take p r @ link_html (clean_url u) lt @ drop (p + l) r"
  by (simp add: put_def)

lemma range_of_simp: "range_of (p, l, lt, u) = (p, p + l)"
  by (simp add: range_of_def)

lemma foldl_splice:
  "foldl splice (rs, r) cs = (rs @ map range_of (chosen rs cs), foldl put r (chosen rs cs))"
proof (induction cs arbitrary: rs r)
  case Nil
  show ?case by simp
next
  case (Cons c cs)
  obtain p l lt u where c: "c = (p, l, lt, u)" by (cases c) auto
  show ?case
    by (simp add: c splice_simp put_simp range_of_simp Cons.IH)
qed

lemma put_all_rendered:
  "separated b cs \<Longrightarrow> b \<le> length txt \<Longrightarrow> take b r = take b txt \<Longrightarrow>
   foldl put r cs = rendered txt b cs @ drop b r"
proof (induction cs arbitrary: b r)
  case Nil
  have "r = take b r @ drop b r" by simp
  with Nil.prems(3) show ?case by simp
next
  case (Cons c cs)
  obtain p l lt u where c: "c = (p, l, lt, u)" by (cases c) auto
  from Cons.prems(1) c have pl: "p + l \<le> b" and sep: "separated p cs" by simp_all
  from Cons.prems(3) have "length (take b r) = length (take b txt)" by simp
  with Cons.prems(2) have len_r: "b \<le> length r" by simp
  let ?H = "link_html (clean_url u) lt"
  let ?r' = "take p r @ ?H @ drop (p + l) r"
  have p_r: "p \<le> length r" using pl len_r by simp
  have "take p r = take p (take b r)" using pl by (simp add: min_def)
  also have "\<dots> = take p (take b txt)" by (simp only: Cons.prems(3))
  also have "\<dots> = take p txt" using pl by (simp add: min_def)
  finally have tp: "take p r = take p txt" .
  have "take p ?r' = take p r" using p_r by simp
  with tp have t1: "take p ?r' = take p txt" by (simp only:)
  have d1: "drop p ?r' = ?H @ drop (p + l) r" using p_r by simp
  have "p \<le> length txt" using pl Cons.prems(2) by simp
  from Cons.IH [OF sep this t1]
  have ih: "foldl put ?r' cs = rendered txt p cs @ ?H @ drop (p + l) r" by (simp only: d1)
  have "take (b - (p + l)) (drop (p + l) r) = drop (p + l) (take b r)"
    using pl by (simp add: drop_take)
  also have "\<dots> = drop (p + l) (take b txt)" by (simp only: Cons.prems(3))
  also have "\<dots> = take (b - (p + l)) (drop (p + l) txt)" using pl by (simp add: drop_take)
  finally have mid: "take (b - (p + l)) (drop (p + l) r) = take (b - (p + l)) (drop (p + l) txt)" .
  have "drop (p + l) r = take (b - (p + l)) (drop (p + l) r) @ drop (b - (p + l)) (drop (p + l) r)"
    by (rule append_take_drop_id [symmetric])
  also have "drop (b - (p + l)) (drop (p + l) r) = drop b r" using pl by simp
  finally have split: "drop (p + l) r = take (b - (p + l)) (drop (p + l) txt) @ drop b r"
    by (simp only: mid)
  have "foldl put r (c # cs) = foldl put ?r' cs" by (simp add: c put_simp)
  also have "\<dots> = rendered txt p cs @ ?H @ take (b - (p + l)) (drop (p + l) txt) @ drop b r"
    using ih split by simp
  finally show ?case by (simp add: c clean_url_takeWhile)
qed

lemma not_overlaps:
  "\<not> overlaps p l rs \<Longrightarrow> (s, e) \<in> set rs \<Longrightarrow> p + l \<le> s \<or> e \<le> p"
  by (induction rs) (auto split: if_splits)

lemma chosen_separated:
  fixes K :: "candidate \<Rightarrow> int \<times> int"
  defines "K \<equiv> (\<lambda>(pos, len, link_text, url). (- int pos, - int len))"
  assumes "sorted (map K cs)"
    and "\<And>c. c \<in> set cs \<Longrightarrow> fst c + fst (snd c) \<le> n"
    and "b = n \<or> (\<exists>e. (b, e) \<in> set rs)"
    and "\<And>s e c. (s, e) \<in> set rs \<Longrightarrow> c \<in> set cs \<Longrightarrow>
           s \<le> e \<and> (- int s, - int (e - s)) \<le> K c"
  shows "separated b (chosen rs cs)"
  using assms(2-)
proof (induction cs arbitrary: rs b)
  case Nil
  show ?case by simp
next
  case (Cons c cs)
  obtain p l lt u where c: "c = (p, l, lt, u)" by (cases c) auto
  from Cons.prems(1) have sorted_tl: "sorted (map K cs)"
    and first: "\<And>c'. c' \<in> set cs \<Longrightarrow> K c \<le> K c'" by auto
  have bound_tl: "\<And>c'. c' \<in> set cs \<Longrightarrow> fst c' + fst (snd c') \<le> n"
    using Cons.prems(2) by simp
  show ?case
  proof (cases "overlaps p l rs")
    case True
    have "separated b (chosen rs cs)"
    proof (rule Cons.IH [OF sorted_tl bound_tl Cons.prems(3)])
      fix s e c'
      assume se: "(s, e) \<in> set rs" and "c' \<in> set cs"
      then have "c' \<in> set (c # cs)" by simp
      from Cons.prems(4) [OF se this]
      show "s \<le> e \<and> (- int s, - int (e - s)) \<le> K c'" .
    qed
    with True show ?thesis by (simp add: c)
  next
    case False
    have pl_n: "p + l \<le> n" using Cons.prems(2) [of c] by (simp add: c)
    have pl_b: "p + l \<le> b"
    proof (cases "b = n")
      case True
      with pl_n show ?thesis by simp
    next
      case False
      with Cons.prems(3) obtain e where be: "(b, e) \<in> set rs" by blast
      have "c \<in> set (c # cs)" by simp
      from Cons.prems(4) [OF be this] have le: "b \<le> e"
        and k: "(- int b, - int (e - b)) \<le> K c" by blast+
      from not_overlaps [OF \<open>\<not> overlaps p l rs\<close> be] show ?thesis
      proof
        assume "p + l \<le> b" then show ?thesis .
      next
        assume "e \<le> p"
        with k le show ?thesis by (auto simp: K_def c)
      qed
    qed
    have "separated p (chosen (rs @ [(p, p + l)]) cs)"
    proof (rule Cons.IH [OF sorted_tl bound_tl])
      show "p = n \<or> (\<exists>e. (p, e) \<in> set (rs @ [(p, p + l)]))" by auto
    next
      fix s e c'
      assume se: "(s, e) \<in> set (rs @ [(p, p + l)])" and c': "c' \<in> set cs"
      show "s \<le> e \<and> (- int s, - int (e - s)) \<le> K c'"
      proof (cases "(s, e) \<in> set rs")
        case True
        from c' have "c' \<in> set (c # cs)" by simp
        from Cons.prems(4) [OF True this] show ?thesis .
      next
        case False
        with se have "s = p" "e = p + l" by auto
        with first [OF c'] show ?thesis by (simp add: K_def c)
      qed
    qed
    with False pl_b show ?thesis by (simp add: c)
  qed
qed

lemma prefix_take: "prefix sub s \<Longrightarrow> length sub \<le> length s \<and> take (length sub) s = sub"
  by (auto simp: prefix_def)

lemma find_from_Some:
  "find_from sub s i = Some j \<Longrightarrow>
   i \<le> j \<and> (j - i) + length sub \<le> length s \<and> take (length sub) (drop (j - i) s) = sub"
proof (induction s arbitrary: i)
  case Nil
  then show ?case by (auto split: if_splits)
next
  case (Cons c cs)
  show ?case
  proof (cases "prefix sub (c # cs)")
    case True
    with Cons.prems have "j = i" by simp
    with prefix_take [OF True] show ?thesis by simp
  next
    case False
    with Cons.prems have "find_from sub cs (Suc i) = Some j" by simp
    from Cons.IH [OF this] have "Suc i \<le> j" and "(j - Suc i) + length sub \<le> length cs"
      and "take (length sub) (drop (j - Suc i) cs) = sub" by blast+
    moreover from \<open>Suc i \<le> j\<close> have "j - i = Suc (j - Suc i)" by simp
    ultimately show ?thesis by simp
  qed
qed

lemma find_str_Some:
  "find_str s sub = Some j \<Longrightarrow> j + length sub \<le> length s \<and> take (length sub) (drop j s) = sub"
  using find_from_Some [of sub s 0 j] by (simp add: find_str_def)

lemma link_positions_in:
  "(p, l, lt, u) \<in> set (link_positions t d) \<Longrightarrow>
   find_str t lt = Some p \<and> l = length lt \<and> (lt, u) \<in> set d"
  by (induction t d rule: link_positions.induct) (auto split: option.splits)

lemma chosen_subset: "set (chosen rs cs) \<subseteq> set cs"
  by (induction rs cs rule: chosen.induct) auto

lemma selected_in:
  assumes "(p, l, lt, u) \<in> set (selected para)"
  shows "find_str (para_text para) lt = Some p \<and> l = length lt
         \<and> (lt, u) \<in> set (extract_hyperlinks para)"
proof -
  from assms chosen_subset
  have "(p, l, lt, u) \<in> set (sort_candidates (link_positions (para_text para) (extract_hyperlinks para)))"
    unfolding selected_def by blast
  then have "(p, l, lt, u) \<in> set (link_positions (para_text para) (extract_hyperlinks para))"
    by (simp add: sort_candidates_def)
  then show ?thesis by (rule link_positions_in)
qed

lemma selected_separated: "separated (length (para_text para)) (selected para)"
  unfolding selected_def sort_candidates_def
proof (rule chosen_separated)
  show "sorted (map (\<lambda>(pos, len, link_text, url). (- int pos, - int len))
          (sort_key (\<lambda>(pos, len, link_text, url). (- int pos, - int len))
             (link_positions (para_text para) (extract_hyperlinks para))))"
    by (rule sorted_sort_key)
next
  fix c
  assume "c \<in> set (sort_key (\<lambda>(pos, len, link_text, url). (- int pos, - int len))
             (link_positions (para_text para) (extract_hyperlinks para)))"
  then have c: "c \<in> set (link_positions (para_text para) (extract_hyperlinks para))" by simp
  obtain p l lt u where "c = (p, l, lt, u)" by (cases c) auto
  with c link_positions_in [of p l lt u] find_str_Some [of "para_text para" lt p]
  show "fst c + fst (snd c) \<le> length (para_text para)" by auto
qed simp_all

lemma get_paragraph_html_rendered:
  "get_paragraph_html para True
     = rendered (para_text para) (length (para_text para)) (selected para)"
proof (cases "extract_hyperlinks para = []")
  case True
  then show ?thesis
    by (simp add: get_paragraph_html_def selected_def sort_candidates_def Let_def)
next
  case False
  let ?t = "para_text para"
  let ?cs = "sort_candidates (link_positions ?t (extract_hyperlinks para))"
  have "snd (splice_all ?t ?cs) = foldl put ?t (chosen [] ?cs)"
    by (simp add: splice_all_def foldl_splice)
  also have "\<dots> = rendered ?t (length ?t) (chosen [] ?cs) @ drop (length ?t) ?t"
    by (rule put_all_rendered) (use selected_separated [of para] in \<open>simp_all add: selected_def\<close>)
  finally show ?thesis using False
    by (simp add: get_paragraph_html_def selected_def Let_def)
qed

lemma rendered_below:
  "separated b cs \<Longrightarrow> b \<le> length txt \<Longrightarrow>
   take (lowest b cs) (rendered txt b cs) = take (lowest b cs) txt \<and> lowest b cs \<le> b"
proof (induction cs arbitrary: b)
  case Nil
  then show ?case by simp
next
  case (Cons c cs)
  obtain p l lt u where c: "c = (p, l, lt, u)" by (cases c) auto
  from Cons.prems c have pl: "p + l \<le> b" and sep: "separated p cs" by simp_all
  with Cons.prems have p: "p \<le> length txt" by simp
  from Cons.IH [OF sep p]
  have ih: "take (lowest p cs) (rendered txt p cs) = take (lowest p cs) txt"
    and low: "lowest p cs \<le> p" by simp_all
  from ih have "length (take (lowest p cs) (rendered txt p cs)) = length (take (lowest p cs) txt)"
    by simp
  with low p have "lowest p cs \<le> length (rendered txt p cs)" by simp
  with ih low pl show ?case by (simp add: c)
qed

lemma separated_sorted_wrt:
  "separated b cs \<Longrightarrow>
   sorted_wrt (\<lambda>c c'. fst c' + fst (snd c') \<le> fst c) cs
   \<and> (\<forall>c\<in>set cs. fst c + fst (snd c) \<le> b)"
proof (induction cs arbitrary: b)
  case Nil
  show ?case by simp
next
  case (Cons c cs)
  obtain p l lt u where c: "c = (p, l, lt, u)" by (cases c) auto
  from Cons.prems c have pl: "p + l \<le> b" and sep: "separated p cs" by simp_all
  from Cons.IH [OF sep] have sw: "sorted_wrt (\<lambda>c c'. fst c' + fst (snd c') \<le> fst c) cs"
    and bd: "\<forall>c\<in>set cs. fst c + fst (snd c) \<le> p" by simp_all
  from bd pl have "\<forall>c\<in>set cs. fst c + fst (snd c) \<le> b" by auto
  with sw bd pl show ?case by (simp add: c)
qed

lemma abc_eval:
  "selected abc_para = [(4, 3, ascii ''ABC'', ascii ''https://www.mouser.com/b?utm_source=x'')]
   \<and> get_paragraph_html abc_para True
     = ascii ''See <a href=\"https://www.mouser.com/b\" target=\"_blank\">ABC</a> and ABC again''"
  by code_simp

subsection \<open>Facts about the loop of \<^verbatim>\<open>parse_docx\<close>\<close>

lemma add_body_fields:
  "headline (add_body U res p) = headline res"
  "subheadline (add_body U res p) = subheadline res"
  "about_sections (add_body U res p) = about_sections res"
  by (simp_all add: add_body_def Let_def split: option.splits)

lemma parse_from_Nil: "parse_from U s [] = s"
  by (simp add: parse_from_def)

lemma parse_from_Cons: "parse_from U s (p # ps) = parse_from U (parse_step U s p) ps"
  by (simp add: parse_from_def)

lemma parse_from_append: "parse_from U s (xs @ ys) = parse_from U (parse_from U s xs) ys"
  by (simp add: parse_from_def)

text \<open>No round of the loop leads back to the body section.\<close>

lemma step_section_back:
  "current_section (parse_step U s p) = Body \<Longrightarrow> current_section s = Body"
  by (simp add: parse_step_def Let_def split: if_splits)


text \<open>Outside the body section a round leaves \<open>body_paragraphs\<close> alone.\<close>

lemma step_body_frozen:
  "current_section s \<noteq> Body \<Longrightarrow>
   body_paragraphs (result (parse_step U s p)) = body_paragraphs (result s)"
  by (simp add: parse_step_def Let_def)

lemma from_body_frozen:
  "current_section s \<noteq> Body \<Longrightarrow>
   body_paragraphs (result (parse_from U s ps)) = body_paragraphs (result s)"
proof (induction ps arbitrary: s)
  case Nil
  then show ?case by (simp add: parse_from_Nil)
next
  case (Cons p ps)
  from Cons.prems have sec: "current_section (parse_step U s p) \<noteq> Body"
    using step_section_back by blast
  have "body_paragraphs (result (parse_from U (parse_step U s p) ps))
        = body_paragraphs (result (parse_step U s p))"
    by (rule Cons.IH [OF sec])
  with Cons.prems show ?case by (simp add: parse_from_Cons step_body_frozen)
qed



text \<open>The outcomes of one round, as a rule for case analysis.\<close>

lemma parse_step_cases:
  assumes "P s"
    and "\<And>t. P (s\<lparr>result := (result s)\<lparr>headline := t\<rparr>\<rparr>)"
    and "\<And>t. P (s\<lparr>result := (result s)\<lparr>subheadline := t\<rparr>\<rparr>)"
    and "\<And>t. P (s\<lparr>current_section := About, current_about_title := Some t,
                  result := (result s)\<lparr>about_sections :=
                    dict_set t [] (about_sections (result s))\<rparr>\<rparr>)"
    and "P (s\<lparr>current_section := Trademarks\<rparr>)"
    and "\<And>t h. current_about_title s = Some t \<Longrightarrow>
           P (s\<lparr>result := (result s)\<lparr>about_sections :=
                dict_append t h (about_sections (result s))\<rparr>\<rparr>)"
    and "current_section s = Body \<Longrightarrow> P (s\<lparr>result := add_body U (result s) p\<rparr>)"
  shows "P (parse_step U s p)"
  unfolding parse_step_def Let_def using assms by auto

text \<open>
  The loop never appends to an about section that is no key of the dictionary: the
  \<^verbatim>\<open>KeyError\<close> of the source cannot arise.
\<close>

lemma keys_dict_set: "fst ` set (dict_set k v d) = insert k (fst ` set d)"
  by (induction d) force+

lemma keys_dict_append: "fst ` set (dict_append k v d) = fst ` set d"
  by (induction d) force+

lemma step_title_present:
  assumes "title_present s"
  shows "title_present (parse_step U s p)"
proof (rule parse_step_cases)
  show "title_present s" by (rule assms)
qed (use assms in \<open>auto simp: title_present_def keys_dict_set keys_dict_append add_body_fields\<close>)

lemma from_title_present: "title_present s \<Longrightarrow> title_present (parse_from U s ps)"
  by (induction ps arbitrary: s)
    (simp_all add: parse_from_Nil parse_from_Cons step_title_present)

lemma init_title_present: "title_present init_state"
  by (simp add: title_present_def init_state_def)

lemma about_title_present: "title_present (parse_loop U paras)"
  unfolding parse_loop_def by (rule from_title_present [OF init_title_present])

text \<open>A text that contains \<^verbatim>\<open>Trademarks\<close> is neither empty nor a closing marker.\<close>

lemma trademarks_not_marker:
  "contains (ascii ''Trademarks'') t \<Longrightarrow> t \<notin> set closing_markers"
  by (auto simp: closing_markers_def ascii_def)

lemma trademarks_not_empty: "contains (ascii ''Trademarks'') t \<Longrightarrow> t \<noteq> []"
  by (auto simp: ascii_def)

subsection \<open>Facts about \<^verbatim>\<open>find_files\<close>\<close>

lemma suffix_excl:
  "suffix (ascii ''.png'') s \<Longrightarrow> \<not> suffix (ascii ''.docx'') s"
  "suffix (ascii ''.pdf'') s \<Longrightarrow> \<not> suffix (ascii ''.docx'') s"
  "suffix (ascii ''.pdf'') s \<Longrightarrow> \<not> suffix (ascii ''.png'') s"
  by (auto simp: suffix_to_prefix ascii_def prefix_def)

lemma path_join_nonempty: "b \<noteq> [] \<Longrightarrow> path_join a b \<noteq> []"
  by (simp add: path_join_def)


lemma find_step_docx:
  "(docx (find_step U fp files e) = None) = (docx files = None \<and> \<not> is_docx U e)"
  by (auto simp: find_step_def Let_def is_docx_def)

lemma find_step_png:
  "(png (find_step U fp files e) = None) = (png files = None \<and> \<not> is_png U e)"
  by (auto simp: find_step_def Let_def is_png_def suffix_excl)

lemma find_step_pdf:
  "(pdf (find_step U fp files e) = None) = (pdf files = None \<and> \<not> is_pdf U e)"
  by (auto simp: find_step_def Let_def is_pdf_def suffix_excl)

lemma find_step_paths_ok:
  "entry_name e \<noteq> [] \<Longrightarrow> paths_ok files \<Longrightarrow> paths_ok (find_step U fp files e)"
  by (auto simp: find_step_def Let_def paths_ok_def path_join_nonempty)

lemma foldl_find_step:
  "names_ok entries \<Longrightarrow> paths_ok files \<Longrightarrow>
   paths_ok (foldl (find_step U fp) files entries)
   \<and> (docx (foldl (find_step U fp) files entries) = None)
     = (docx files = None \<and> \<not> list_ex (is_docx U) entries)
   \<and> (png (foldl (find_step U fp) files entries) = None)
     = (png files = None \<and> \<not> list_ex (is_png U) entries)
   \<and> (pdf (foldl (find_step U fp) files entries) = None)
     = (pdf files = None \<and> \<not> list_ex (is_pdf U) entries)"
proof (induction entries arbitrary: files)
  case Nil
  then show ?case by simp
next
  case (Cons e es)
  from Cons.prems have e: "entry_name e \<noteq> []" and es: "names_ok es"
    by (simp_all add: names_ok_def)
  from find_step_paths_ok [OF e Cons.prems(2)] have ok: "paths_ok (find_step U fp files e)" .
  from Cons.IH [OF es ok]
  show ?case by (auto simp: find_step_docx find_step_png find_step_pdf)
qed

lemma missing_files_absent:
  assumes "names_ok entries"
  shows "missing_files (find_files U fp entries) = absent_kinds U entries"
proof -
  let ?init = "\<lparr> docx = None, png = None, pdf = None, files_folder_name = basename fp \<rparr>"
  have "paths_ok ?init" by (simp add: paths_ok_def)
  from foldl_find_step [OF assms this, of U fp]
  show ?thesis
    by (auto simp: missing_files_def absent_kinds_def find_files_def falsy_def paths_ok_def)
qed

section \<open>Claims\<close>




text \<open>
  C2, as the claim states it, fails: a paragraph styled \<^verbatim>\<open>Heading 1\<close> whose text
  has no \<^verbatim>\<open>Trademarks\<close> makes no transition and is appended to the body.
\<close>

theorem heading_without_trademarks_is_content:
  "current_section (parse_loop ascii_db [styled ''Heading 1'' ''Overview'']) = Body
   \<and> body_paragraphs (parse_docx ascii_db [styled ''Heading 1'' ''Overview''])
     = [ascii ''Overview'']"
  by code_simp

text \<open>
  C2, amended. A paragraph that reaches the section rules (its stripped text \<open>t\<close> is
  taken by neither the headline rules nor the sub-headline rules, and does not start
  with \<^verbatim>\<open>About \<close>) and whose text contains \<^verbatim>\<open>Trademarks\<close> together with the
  style \<^verbatim>\<open>Heading 1\<close> or the prefix \<^verbatim>\<open>Trademarks\<close> moves the extractor to the
  trademarks state and changes nothing else: it contributes no content.
\<close>

theorem trademarks_paragraph_moves_to_trademarks:
  assumes stripped: "t = strip U (para_text p)"
    and tm: "contains (ascii ''Trademarks'') t"
    and how: "style_name p = ascii ''Heading 1'' \<or> prefix (ascii ''Trademarks'') t"
    and not_title: "style_name p \<noteq> ascii ''Title''"
    and not_title2: "style_name p \<noteq> ascii ''Title2'' \<or> headline (result s) \<noteq> []"
    and not_heading: "headline (result s) \<noteq> [] \<or> style_name p \<noteq> ascii ''Heading 1''
                       \<or> length t \<le> 20"
    and not_sub: "headline (result s) = [] \<or> subheadline (result s) \<noteq> []
                   \<or> body_paragraphs (result s) \<noteq> []
                   \<or> (style_name p \<noteq> ascii ''Subtitle''
                       \<and> (\<not> has_italic U p \<or> 200 \<le> length t \<or> t = headline (result s)
                            \<or> month_digit_match U t))"
    and not_about: "\<not> prefix (ascii ''About '') t"
  shows "parse_step U s p = s\<lparr>current_section := Trademarks\<rparr>"
proof -
  have c1: "(t = []) = False"
    using tm trademarks_not_empty by blast
  have c2: "(t \<in> set closing_markers) = False"
    using tm trademarks_not_marker by blast
  have c3: "(style_name p = ascii ''Title''
             \<or> (style_name p = ascii ''Title2'' \<and> headline (result s) = [])) = False"
    using not_title not_title2 by blast
  have c4: "(headline (result s) = []
             \<and> style_name p \<in> set [ascii ''Title'', ascii ''Heading 1'']
             \<and> length t > 20) = False"
    using not_title not_heading by auto
  have c5: "((headline (result s) \<noteq> [] \<and> subheadline (result s) = []
              \<and> body_paragraphs (result s) = [])
             \<and> style_name p = ascii ''Subtitle'') = False"
    using not_sub by blast
  have c6: "((headline (result s) \<noteq> [] \<and> subheadline (result s) = []
              \<and> body_paragraphs (result s) = [])
             \<and> (has_italic U p \<and> length t < 200 \<and> t \<noteq> headline (result s))
             \<and> \<not> month_digit_match U t) = False"
    using not_sub by auto
  have c7: "((style_name p = ascii ''Heading 1'' \<or> prefix (ascii ''About '') t)
             \<and> prefix (ascii ''About '') t) = False"
    using not_about by blast
  have c8: "(contains (ascii ''Trademarks'') t
             \<and> (style_name p = ascii ''Heading 1'' \<or> prefix (ascii ''Trademarks'') t)) = True"
    using tm how by blast
  show ?thesis
    unfolding parse_step_def Let_def stripped [symmetric]
    by (simp only: c1 c2 c3 c4 c5 c6 c7 c8 if_True if_False)
qed

theorem trademarks_paragraph_moves_to_trademarks_witness:
  "contains (ascii ''Trademarks'')
     (strip ascii_db (para_text (styled ''Heading 1'' ''Trademarks'')))
   \<and> parse_step ascii_db
        (parse_loop ascii_db
           [styled ''Title'' ''Widget Launch'', styled ''Normal'' ''A first paragraph.''])
        (styled ''Heading 1'' ''Trademarks'')
     = (parse_loop ascii_db
          [styled ''Title'' ''Widget Launch'', styled ''Normal'' ''A first paragraph.''])
         \<lparr>current_section := Trademarks\<rparr>"
proof -
  let ?s = "parse_loop ascii_db
              [styled ''Title'' ''Widget Launch'', styled ''Normal'' ''A first paragraph.'']"
  let ?p = "styled ''Heading 1'' ''Trademarks''"
  let ?t = "strip ascii_db (para_text ?p)"
  have h1: "contains (ascii ''Trademarks'') ?t" by code_simp
  have h2: "style_name ?p = ascii ''Heading 1'' \<or> prefix (ascii ''Trademarks'') ?t"
    by code_simp
  have h3: "style_name ?p \<noteq> ascii ''Title''" by code_simp
  have h4: "style_name ?p \<noteq> ascii ''Title2'' \<or> headline (result ?s) \<noteq> []"
    by code_simp
  have h5: "headline (result ?s) \<noteq> [] \<or> style_name ?p \<noteq> ascii ''Heading 1''
            \<or> length ?t \<le> 20"
    by code_simp
  have h6: "headline (result ?s) = [] \<or> subheadline (result ?s) \<noteq> []
            \<or> body_paragraphs (result ?s) \<noteq> []
            \<or> (style_name ?p \<noteq> ascii ''Subtitle''
                \<and> (\<not> has_italic ascii_db ?p \<or> 200 \<le> length ?t
                     \<or> ?t = headline (result ?s) \<or> month_digit_match ascii_db ?t))"
    by code_simp
  have h7: "\<not> prefix (ascii ''About '') ?t" by code_simp
  from trademarks_paragraph_moves_to_trademarks [OF refl h1 h2 h3 h4 h5 h6 h7] h1
  show ?thesis by blast
qed

text \<open>
  C3. The claim holds of the title styles, where the source tests for the phrase, and
  fails in the rule for headings, which has no such test: a first paragraph styled
  \<^verbatim>\<open>Heading 1\<close> with the text \<^verbatim>\<open>New Product Announcement\<close> (24 characters)
  becomes the headline.
\<close>

theorem heading_announcement_captured:
  "headline (parse_docx ascii_db [styled ''Heading 1'' ''New Product Announcement''])
     = ascii ''New Product Announcement''"
  by code_simp




text \<open>
  C5. Once the state is about or trademarks, no later paragraph is appended to
  \<open>body_paragraphs\<close>, whatever its style and text: the body paragraphs of the whole
  document are those of the part read when the state had left body.
\<close>

theorem body_frozen_after_section:
  "current_section (parse_loop U pre) \<noteq> Body \<Longrightarrow>
   body_paragraphs (parse_docx U (pre @ post)) = body_paragraphs (parse_docx U pre)"
  by (simp add: parse_docx_def parse_loop_def parse_from_append from_body_frozen)

theorem body_frozen_after_section_witness:
  "current_section (parse_loop ascii_db
       [styled ''Normal'' ''A first paragraph.'', styled ''Normal'' ''About Mouser'']) \<noteq> Body
   \<and> body_paragraphs (parse_docx ascii_db
         ([styled ''Normal'' ''A first paragraph.'', styled ''Normal'' ''About Mouser'']
          @ [styled ''Normal'' ''Mouser is a distributor.'', styled ''Heading 1'' ''Overview'',
             styled ''Normal'' ''Trademarks'', styled ''Normal'' ''All rights reserved.'']))
     = [ascii ''A first paragraph.'']"
proof -
  have h: "current_section (parse_loop ascii_db
       [styled ''Normal'' ''A first paragraph.'', styled ''Normal'' ''About Mouser'']) \<noteq> Body"
    by code_simp
  have b: "body_paragraphs (parse_docx ascii_db
       [styled ''Normal'' ''A first paragraph.'', styled ''Normal'' ''About Mouser''])
     = [ascii ''A first paragraph.'']"
    by code_simp
  from body_frozen_after_section [OF h] h b show ?thesis by simp
qed

text \<open>
  C6. For every paragraph the renderer replaces, in the original text, the ranges of the
  selected candidates and nothing else (\<open>rendered\<close>); every \<^verbatim>\<open>href\<close> is the URL
  cut at its first \<^verbatim>\<open>'?'\<close>. The selected ranges are pairwise non-overlapping,
  each later one ending at or before the start of every earlier one, and each is an
  occurrence of its link text in the original text, for a pair of the hyperlink map.
  The text below the lowest spliced range is unchanged. For the text
  \<^verbatim>\<open>See ABC and ABC again\<close> with two hyperlinks of text \<^verbatim>\<open>ABC\<close>, exactly one
  anchor is produced, over the first occurrence, and the second \<^verbatim>\<open>ABC\<close> stays plain.
\<close>

theorem paragraph_renderer_splices:
  "get_paragraph_html para True
     = rendered (para_text para) (length (para_text para)) (selected para)
   \<and> sorted_wrt (\<lambda>c c'. fst c' + fst (snd c') \<le> fst c) (selected para)
   \<and> list_all (\<lambda>(pos, len, link_text, url).
         pos + len \<le> length (para_text para)
         \<and> take len (drop pos (para_text para)) = link_text
         \<and> (link_text, url) \<in> set (extract_hyperlinks para)) (selected para)
   \<and> take (lowest (length (para_text para)) (selected para)) (get_paragraph_html para True)
     = take (lowest (length (para_text para)) (selected para)) (para_text para)
   \<and> selected abc_para
     = [(4, 3, ascii ''ABC'', ascii ''https://www.mouser.com/b?utm_source=x'')]
   \<and> get_paragraph_html abc_para True
     = ascii ''See <a href=\"https://www.mouser.com/b\" target=\"_blank\">ABC</a> and ABC again''"
proof -
  let ?t = "para_text para"
  have r: "get_paragraph_html para True = rendered ?t (length ?t) (selected para)"
    by (rule get_paragraph_html_rendered)
  have sep: "separated (length ?t) (selected para)"
    by (rule selected_separated)
  from separated_sorted_wrt [OF sep]
  have sw: "sorted_wrt (\<lambda>c c'. fst c' + fst (snd c') \<le> fst c) (selected para)" by simp
  have occ: "list_all (\<lambda>(pos, len, link_text, url).
         pos + len \<le> length ?t \<and> take len (drop pos ?t) = link_text
         \<and> (link_text, url) \<in> set (extract_hyperlinks para)) (selected para)"
    unfolding list_all_iff
  proof
    fix c
    assume c: "c \<in> set (selected para)"
    obtain p l lt u where eq: "c = (p, l, lt, u)" by (cases c) auto
    from c eq selected_in [of p l lt u para]
    have f: "find_str ?t lt = Some p" and l: "l = length lt"
      and m: "(lt, u) \<in> set (extract_hyperlinks para)" by simp_all
    from find_str_Some [OF f] l m
    show "case c of (pos, len, link_text, url) \<Rightarrow>
            pos + len \<le> length ?t \<and> take len (drop pos ?t) = link_text
            \<and> (link_text, url) \<in> set (extract_hyperlinks para)"
      by (simp add: eq)
  qed
  from rendered_below [OF sep, of ?t]
  have low: "take (lowest (length ?t) (selected para)) (rendered ?t (length ?t) (selected para))
             = take (lowest (length ?t) (selected para)) ?t" by simp
  from r sw occ low abc_eval show ?thesis by (simp only: simp_thms)
qed

text \<open>
  C8. When the folder lacks any of the three required kinds, \<^verbatim>\<open>process_press_release\<close>
  returns at line 589: \<open>success\<close> is false, the only error is
  \<^verbatim>\<open>Missing files:\<close> with exactly the absent kinds, in the order Word document, PNG
  image, PDF file, and no file has been written.
\<close>

theorem missing_kind_aborts:
  assumes "names_ok entries" and "absent_kinds U entries \<noteq> []"
  shows "process_press_release U process_found (Some entries) folder_path =
           (\<lparr> success = False, folder_name = Some (basename folder_path),
              files_to_upload = [], preview_urls = [],
              errors = [ascii ''Missing files: ''
                          @ join (ascii '', '') (absent_kinds U entries)],
              month_folder = None \<rparr>, [])"
  using assms by (simp add: process_press_release_def Let_def missing_files_absent)

theorem missing_kind_aborts_witness:
  "names_ok [\<lparr> entry_name = ascii ''report.docx'', entry_is_file = True \<rparr>,
             \<lparr> entry_name = ascii ''photo.png'', entry_is_file = True \<rparr>]
   \<and> absent_kinds ascii_db
        [\<lparr> entry_name = ascii ''report.docx'', entry_is_file = True \<rparr>,
         \<lparr> entry_name = ascii ''photo.png'', entry_is_file = True \<rparr>]
       = [ascii ''PDF file (.pdf)'']
   \<and> process_press_release ascii_db
        (\<lambda>files r. (r\<lparr>success := True\<rparr>, [ascii ''/tmp/Widget Launch/report.html'']))
        (Some [\<lparr> entry_name = ascii ''report.docx'', entry_is_file = True \<rparr>,
               \<lparr> entry_name = ascii ''photo.png'', entry_is_file = True \<rparr>])
        (ascii ''/tmp/Widget Launch'')
     = (\<lparr> success = False, folder_name = Some (ascii ''Widget Launch''),
          files_to_upload = [], preview_urls = [],
          errors = [ascii ''Missing files: PDF file (.pdf)''],
          month_folder = None \<rparr>, [])"
proof -
  let ?es = "[\<lparr> entry_name = ascii ''report.docx'', entry_is_file = True \<rparr>,
              \<lparr> entry_name = ascii ''photo.png'', entry_is_file = True \<rparr>]"
  have h1: "names_ok ?es" by code_simp
  have a: "absent_kinds ascii_db ?es = [ascii ''PDF file (.pdf)'']" by code_simp
  then have h2: "absent_kinds ascii_db ?es \<noteq> []" by simp
  have b: "basename (ascii ''/tmp/Widget Launch'') = ascii ''Widget Launch''" by code_simp
  have j: "ascii ''Missing files: '' @ join (ascii '', '') [ascii ''PDF file (.pdf)'']
           = ascii ''Missing files: PDF file (.pdf)''" by code_simp
  from missing_kind_aborts [OF h1 h2, of "\<lambda>files r. (r\<lparr>success := True\<rparr>, [ascii ''/tmp/Widget Launch/report.html''])" "ascii ''/tmp/Widget Launch''"]
  have "process_press_release ascii_db
        (\<lambda>files r. (r\<lparr>success := True\<rparr>, [ascii ''/tmp/Widget Launch/report.html'']))
        (Some ?es) (ascii ''/tmp/Widget Launch'')
     = (\<lparr> success = False, folder_name = Some (ascii ''Widget Launch''),
          files_to_upload = [], preview_urls = [],
          errors = [ascii ''Missing files: PDF file (.pdf)''],
          month_folder = None \<rparr>, [])"
    by (simp only: a b j)
  with h1 a show ?thesis by blast
qed

text \<open>
  C10. \<^verbatim>\<open>clean_url\<close> is query-free and idempotent: for every string \<open>u\<close> the
  result contains no \<^verbatim>\<open>'?'\<close>, and cleaning a cleaned URL changes nothing.
\<close>

theorem clean_url_query_free_idempotent:
  "qmark \<notin> set (clean_url u) \<and> clean_url (clean_url u) = clean_url u"
proof -
  have free: "qmark \<notin> set (takeWhile (\<lambda>c. c \<noteq> qmark) u)"
    by (auto dest: set_takeWhileD)
  have "takeWhile (\<lambda>c. c \<noteq> qmark) (takeWhile (\<lambda>c. c \<noteq> qmark) u)
        = takeWhile (\<lambda>c. c \<noteq> qmark) u"
    by simp
  with free show ?thesis by (simp add: clean_url_takeWhile)
qed

end
